theory Spec2Isabelle
  imports Main "HOL-Library.Sublist"
begin

section \<open>The skip-gram dataset of the word-embedding notebook\<close>

text \<open>
  The class under verification, from the notebook cell that builds the training pairs:
  \<^verbatim>\<open>
  class SkipGramDataset(Dataset):
      def __init__(self, text, window_size=4):
          self.window_size = window_size
          self.data = []
          for i, center_word in enumerate(text):
              for j in range(i - window_size, i + window_size + 1):
                  if j != i and j >= 0 and j < len(text):
                      self.data.append((center_word, text[j]))

      def __len__(self):
          return len(self.data)

      def __getitem__(self, idx):
          return self.data[idx]
  \<close>
  \<open>text\<close> is the list of integer token ids that \<open>text_pipeline\<close> returns. Python
  integers are unbounded, so indices and the window size are of type \<^typ>\<open>int\<close>.
\<close>

subsection \<open>Data\<close>

type_synonym token = int
type_synonym pair = "token \<times> token"

text \<open>
  The exceptions the three methods can raise: a list subscript out of range, and the
  lookup of an attribute that has not been set.
\<close>

datatype py_error = IndexError | AttributeError

record SkipGramDataset =
  window_size :: int
  data :: "pair list"

subsection \<open>Subscripting a Python list\<close>

text \<open>
  \<open>xs[idx]\<close>: a negative subscript counts from the end of the list, and a subscript
  that is still out of range afterwards raises \<open>IndexError\<close>.
\<close>

definition list_getitem :: "'a list \<Rightarrow> int \<Rightarrow> py_error + 'a" where
  "list_getitem xs idx =
     (let pos = (if idx < 0 then idx + int (length xs) else idx)
      in if pos < 0 \<or> int (length xs) \<le> pos then Inl IndexError
         else Inr (xs ! nat pos))"

subsection \<open>The constructor\<close>

text \<open>
  The inner loop \<open>for j in range(i - window_size, i + window_size + 1)\<close>. The loop
  variable \<open>j\<close> runs from its start value while it is below \<open>stop\<close>; \<open>acc\<close> is
  \<open>self.data\<close>, which the body extends at its end. The subscript \<open>text[j]\<close> may raise,
  and an exception leaves the loop at once.
\<close>

function inner_loop ::
  "token list \<Rightarrow> int \<Rightarrow> token \<Rightarrow> int \<Rightarrow> int \<Rightarrow> pair list \<Rightarrow> py_error + pair list" where
  "inner_loop text i center_word j stop acc =
     (if j < stop then
        (if j \<noteq> i \<and> j \<ge> 0 \<and> j < int (length text) then
           (case list_getitem text j of
              Inl err \<Rightarrow> Inl err
            | Inr context_word \<Rightarrow>
                inner_loop text i center_word (j + 1) stop (acc @ [(center_word, context_word)]))
         else inner_loop text i center_word (j + 1) stop acc)
      else Inr acc)"
  by pat_completeness auto
termination
  by (relation "measure (\<lambda>(text, i, center_word, j, stop, acc). nat (stop - j))") auto

declare inner_loop.simps [simp del]

text \<open>
  The outer loop \<open>for i, center_word in enumerate(text)\<close>, over the items that
  \<open>enumerate\<close> still has to deliver.
\<close>

fun outer_loop ::
  "token list \<Rightarrow> int \<Rightarrow> (nat \<times> token) list \<Rightarrow> pair list \<Rightarrow> py_error + pair list" where
  "outer_loop text w [] acc = Inr acc"
| "outer_loop text w ((i, center_word) # rest) acc =
     (case inner_loop text (int i) center_word (int i - w) (int i + w + 1) acc of
        Inl err \<Rightarrow> Inl err
      | Inr acc' \<Rightarrow> outer_loop text w rest acc')"

definition SkipGramDataset_init :: "token list \<Rightarrow> int \<Rightarrow> py_error + SkipGramDataset" where
  "SkipGramDataset_init text w =
     (case outer_loop text w (enumerate 0 text) [] of
        Inl err \<Rightarrow> Inl err
      | Inr acc \<Rightarrow> Inr \<lparr>window_size = w, data = acc\<rparr>)"

subsection \<open>Length and subscript\<close>

definition SkipGramDataset_len :: "SkipGramDataset \<Rightarrow> int" where
  "SkipGramDataset_len self = int (length (data self))"

definition SkipGramDataset_getitem :: "SkipGramDataset \<Rightarrow> int \<Rightarrow> py_error + pair" where
  "SkipGramDataset_getitem self idx = list_getitem (data self) idx"

section \<open>The enumeration the specification describes\<close>

text \<open>
  The reference double loop in the specification's words: every index \<open>i\<close> in increasing
  order, every \<open>j\<close> of the closed range from \<open>i - w\<close> to \<open>i + w\<close> in increasing order,
  leaving out \<open>j = i\<close> and every \<open>j\<close> outside \<open>0 .. len(S) - 1\<close>, gives the pair
  \<open>(S[i], S[j])\<close>.
\<close>

definition window_indices :: "nat \<Rightarrow> int \<Rightarrow> int \<Rightarrow> int list" where
  "window_indices n w i = filter (\<lambda>j. j \<noteq> i \<and> 0 \<le> j \<and> j \<le> int n - 1) [i - w .. i + w]"

definition brute_force_pairs :: "token list \<Rightarrow> int \<Rightarrow> pair list" where
  "brute_force_pairs S w =
     concat (map (\<lambda>i. map (\<lambda>j. (S ! nat i, S ! nat j)) (window_indices (length S) w i))
                 [0 .. int (length S) - 1])"

section \<open>The constructor as a program on a store of objects\<close>

text \<open>
  The definitions above pass the token list and \<open>self.data\<close> around as values. To talk
  about what the constructor changes, the same code is modelled once more on a store:
  \<open>text\<close> and \<open>self.data\<close> are references to list objects, \<open>self.data = []\<close>
  allocates a new list, \<open>append\<close> updates the list it is called on, and every \<open>len\<close>,
  subscript and iteration step reads the store of that moment.
\<close>

type_synonym ref = nat

text \<open>What a list holds here: an integer, or the tuple that the loop body builds.\<close>

datatype py_value = IntVal int | TupleVal py_value py_value

text \<open>
  The store: the list object behind every reference, and the next reference to hand
  out. The references below \<open>next_ref\<close> are the allocated ones.
\<close>

record store =
  objs :: "ref \<Rightarrow> py_value list"
  next_ref :: ref

text \<open>The attributes of \<open>self\<close>; \<open>None\<close> is an attribute that has not been set.\<close>

record dataset_object =
  attr_window_size :: "int option"
  attr_data :: "ref option"

text \<open>The list display \<open>[]\<close>: a new, empty list object.\<close>

definition new_list :: "store \<Rightarrow> store \<times> ref" where
  "new_list h = (h\<lparr>objs := (objs h)(next_ref h := []), next_ref := Suc (next_ref h)\<rparr>, next_ref h)"

text \<open>\<open>r.append(v)\<close> changes the list object behind \<open>r\<close>.\<close>

definition list_append :: "store \<Rightarrow> ref \<Rightarrow> py_value \<Rightarrow> store" where
  "list_append h r v = h\<lparr>objs := (objs h)(r := objs h r @ [v])\<rparr>"

text \<open>The attribute lookup \<open>self.data\<close>.\<close>

definition get_data :: "dataset_object \<Rightarrow> py_error + ref" where
  "get_data self = (case attr_data self of None \<Rightarrow> Inl AttributeError | Some r \<Rightarrow> Inr r)"

text \<open>
  The inner loop. The call \<open>self.data.append((center_word, text[j]))\<close> looks up
  \<open>self.data\<close>, then evaluates the argument, then appends.
\<close>

function inner_loop_store ::
  "store \<Rightarrow> dataset_object \<Rightarrow> ref \<Rightarrow> int \<Rightarrow> py_value \<Rightarrow> int \<Rightarrow> int \<Rightarrow> py_error + store" where
  "inner_loop_store h self text i center_word j stop =
     (if j < stop then
        (if j \<noteq> i \<and> j \<ge> 0 \<and> j < int (length (objs h text)) then
           (case get_data self of
              Inl err \<Rightarrow> Inl err
            | Inr d \<Rightarrow>
                (case list_getitem (objs h text) j of
                   Inl err \<Rightarrow> Inl err
                 | Inr context_word \<Rightarrow>
                     inner_loop_store (list_append h d (TupleVal center_word context_word))
                       self text i center_word (j + 1) stop))
         else inner_loop_store h self text i center_word (j + 1) stop)
      else Inr h)"
  by pat_completeness auto
termination
  by (relation "measure (\<lambda>(h, self, text, i, center_word, j, stop). nat (stop - j))") auto

declare inner_loop_store.simps [simp del]

text \<open>
  The outer loop. The iterator of a list keeps an index \<open>idx\<close> and delivers
  \<open>text[idx]\<close> as long as \<open>idx\<close> is below the length the list has at that moment. If the
  body appended to the list it iterates over, the loop would not end, so the result is an
  option and \<open>None\<close> stands for a run that does not return.
\<close>

partial_function (option) outer_loop_store ::
  "store \<Rightarrow> dataset_object \<Rightarrow> ref \<Rightarrow> int \<Rightarrow> nat \<Rightarrow> (py_error + store) option" where
  "outer_loop_store h self text w idx =
     (if idx < length (objs h text) then
        (case inner_loop_store h self text (int idx) (objs h text ! idx)
                (int idx - w) (int idx + w + 1) of
           Inl err \<Rightarrow> Some (Inl err)
         | Inr h' \<Rightarrow> outer_loop_store h' self text w (Suc idx))
      else Some (Inr h))"

definition SkipGramDataset_init_store ::
  "store \<Rightarrow> dataset_object \<Rightarrow> ref \<Rightarrow> int \<Rightarrow> (py_error + store \<times> dataset_object) option" where
  "SkipGramDataset_init_store h self text w =
     (let self1 = self\<lparr>attr_window_size := Some w\<rparr>;
          (h1, d) = new_list h;
          self2 = self1\<lparr>attr_data := Some d\<rparr>
      in case outer_loop_store h1 self2 text w 0 of
           None \<Rightarrow> None
         | Some (Inl err) \<Rightarrow> Some (Inl err)
         | Some (Inr h2) \<Rightarrow> Some (Inr (h2, self2)))"

text \<open>A pair of tokens as the tuple object of the store.\<close>

definition pair_value :: "pair \<Rightarrow> py_value" where
  "pair_value p = TupleVal (IntVal (fst p)) (IntVal (snd p))"

section \<open>What the loops compute\<close>

text \<open>
  Inside the guard of the inner loop the subscript \<open>text[j]\<close> is in range, so it
  never raises.
\<close>

lemma list_getitem_in_range:
  "0 \<le> idx \<Longrightarrow> idx < int (length xs) \<Longrightarrow> list_getitem xs idx = Inr (xs ! nat idx)"
  by (simp add: list_getitem_def)

lemma inner_loop_eq:
  "inner_loop toks i c j stop acc =
     Inr (acc @ map (\<lambda>k. (c, toks ! nat k))
                  (filter (\<lambda>k. k \<noteq> i \<and> 0 \<le> k \<and> k \<le> int (length toks) - 1) [j .. stop - 1]))"
proof (induction toks i c j stop acc rule: inner_loop.induct)
  case (1 toks i c j stop acc)
  show ?case
  proof (cases "j < stop")
    case False
    then show ?thesis by (simp add: inner_loop.simps)
  next
    case below: True
    then have unfold_range: "[j .. stop - 1] = j # [j + 1 .. stop - 1]"
      by (simp add: upto_rec1)
    show ?thesis
    proof (cases "j \<noteq> i \<and> j \<ge> 0 \<and> j < int (length toks)")
      case emit: True
      then have read: "list_getitem toks j = Inr (toks ! nat j)"
        by (simp add: list_getitem_in_range)
      have "inner_loop toks i c j stop acc =
              inner_loop toks i c (j + 1) stop (acc @ [(c, toks ! nat j)])"
        using below emit read by (subst inner_loop.simps) simp
      also have "\<dots> = Inr ((acc @ [(c, toks ! nat j)]) @ map (\<lambda>k. (c, toks ! nat k))
                  (filter (\<lambda>k. k \<noteq> i \<and> 0 \<le> k \<and> k \<le> int (length toks) - 1) [j + 1 .. stop - 1]))"
        using "1.IH"(1) [OF below emit read] .
      finally show ?thesis
        using emit by (simp add: unfold_range)
    next
      case skip: False
      have "inner_loop toks i c j stop acc = inner_loop toks i c (j + 1) stop acc"
        using below skip by (subst inner_loop.simps) auto
      also have "\<dots> = Inr (acc @ map (\<lambda>k. (c, toks ! nat k))
                  (filter (\<lambda>k. k \<noteq> i \<and> 0 \<le> k \<and> k \<le> int (length toks) - 1) [j + 1 .. stop - 1]))"
        using "1.IH"(2) [OF below skip] .
      finally show ?thesis
        using skip by (auto simp add: unfold_range)
    qed
  qed
qed

lemma outer_loop_eq:
  "outer_loop toks w items acc =
     Inr (acc @ concat (map (\<lambda>(i, c). map (\<lambda>k. (c, toks ! nat k))
                                          (window_indices (length toks) w (int i))) items))"
proof (induction items arbitrary: acc)
  case Nil
  show ?case by simp
next
  case (Cons item items)
  obtain i c where item: "item = (i, c)" by (cases item)
  have "[int i - w .. int i + w + 1 - 1] = [int i - w .. int i + w]" by simp
  then show ?case
    by (simp add: item inner_loop_eq Cons.IH window_indices_def)
qed

lemma enumerate_as_indices:
  "map (\<lambda>(i, c). g (int i) c) (enumerate 0 xs) =
   map (\<lambda>i. g i (xs ! nat i)) [0 .. int (length xs) - 1]"
  by (rule nth_equalityI) (simp_all add: nth_enumerate_eq)

lemma init_eq_brute_force:
  "SkipGramDataset_init S w = Inr \<lparr>window_size = w, data = brute_force_pairs S w\<rparr>"
  unfolding SkipGramDataset_init_def brute_force_pairs_def outer_loop_eq
  using enumerate_as_indices [of "\<lambda>i c. map (\<lambda>k. (c, S ! nat k)) (window_indices (length S) w i)" S]
  by simp


lemma filter_upto_interval:
  "filter (\<lambda>k. lo \<le> k \<and> k < hi) [a .. b] = [max a lo .. min b (hi - 1)]"
  by (rule sorted_distinct_set_unique) (auto intro: sorted_wrt_filter)

lemma window_indices_split:
  "window_indices n w i = [max (i - w) 0 .. min (i - 1) (int n - 1)] @ [max (i + 1) 0 .. min (i + w) (int n - 1)]"
proof (cases "0 \<le> w")
  case False
  then show ?thesis by (simp add: window_indices_def)
next
  case True
  then have "[i - w .. i + w] = [i - w .. i - 1] @ i # [i + 1 .. i + w]"
    by (simp add: upto_split3)
  moreover have "filter (\<lambda>j. j \<noteq> i \<and> 0 \<le> j \<and> j \<le> int n - 1) [i - w .. i - 1]
      = filter (\<lambda>j. 0 \<le> j \<and> j \<le> int n - 1) [i - w .. i - 1]"
    by (rule filter_cong) auto
  moreover have "filter (\<lambda>j. j \<noteq> i \<and> 0 \<le> j \<and> j \<le> int n - 1) [i + 1 .. i + w]
      = filter (\<lambda>j. 0 \<le> j \<and> j \<le> int n - 1) [i + 1 .. i + w]"
    by (rule filter_cong) auto
  ultimately show ?thesis
    by (simp add: window_indices_def filter_upto_interval)
qed

lemma length_window_indices:
  assumes "0 \<le> w" "0 \<le> i" "i \<le> int n - 1"
  shows "int (length (window_indices n w i)) = min (i + w) (int n - 1) - max (i - w) 0"
  using assms by (simp add: window_indices_split)

lemma length_brute_force_pairs:
  assumes "0 \<le> w"
  shows "int (length (brute_force_pairs S w)) =
    (\<Sum>i\<leftarrow>[0 .. int (length S) - 1]. min (i + w) (int (length S) - 1) - max (i - w) 0)"
proof -
  have "int (length (brute_force_pairs S w)) =
      (\<Sum>i\<leftarrow>[0 .. int (length S) - 1]. int (length (window_indices (length S) w i)))"
    by (simp add: brute_force_pairs_def length_concat comp_def sum_list_of_nat [symmetric])
  also have "\<dots> = (\<Sum>i\<leftarrow>[0 .. int (length S) - 1]. min (i + w) (int (length S) - 1) - max (i - w) 0)"
    by (rule arg_cong [where f = sum_list], rule map_cong) (simp_all add: length_window_indices assms)
  finally show ?thesis .
qed

subsection \<open>Boundary window sizes and short sequences\<close>

lemma brute_force_pairs_negative: "w < 0 \<Longrightarrow> brute_force_pairs S w = []"
  by (simp add: brute_force_pairs_def window_indices_def)

lemma brute_force_pairs_Nil: "brute_force_pairs [] w = []"
  by (simp add: brute_force_pairs_def)

lemma brute_force_pairs_single: "brute_force_pairs [t] w = []"
proof -
  have "window_indices 1 w 0 = []"
    by (auto simp add: window_indices_def filter_empty_conv)
  moreover have "[0 .. int (length [t]) - 1] = [0]"
    by (simp add: upto_rec1)
  ultimately show ?thesis
    by (simp add: brute_force_pairs_def)
qed

lemma brute_force_pairs_zero: "brute_force_pairs S 0 = []"
proof -
  have "window_indices n 0 i = []" for n i
    by (auto simp add: window_indices_def filter_empty_conv)
  then show ?thesis
    by (simp add: brute_force_pairs_def)
qed

subsection \<open>Which pairs occur\<close>

lemma set_window_indices:
  "set (window_indices n w i) = {j. j \<noteq> i \<and> 0 \<le> j \<and> j < int n \<and> \<bar>j - i\<bar> \<le> w}"
  by (auto simp add: window_indices_def)

lemma set_brute_force_pairs:
  "set (brute_force_pairs S w) =
     (\<Union>i \<in> {0 ..< int (length S)}. (\<lambda>j. (S ! nat i, S ! nat j)) ` set (window_indices (length S) w i))"
  by (auto simp add: brute_force_pairs_def)


lemma in_brute_force_pairs_iff:
  "(c, x) \<in> set (brute_force_pairs S w) \<longleftrightarrow>
   (\<exists>i j. i < length S \<and> j < length S \<and> j \<noteq> i \<and> \<bar>int j - int i\<bar> \<le> w
          \<and> c = S ! i \<and> x = S ! j)"
  (is "?lhs \<longleftrightarrow> ?rhs")
proof
  assume ?lhs
  then obtain i j where
    i: "i \<in> {0 ..< int (length S)}" and
    j: "j \<in> set (window_indices (length S) w i)" and
    cx: "(c, x) = (S ! nat i, S ! nat j)"
    unfolding set_brute_force_pairs by blast
  from j have j': "j \<noteq> i" "0 \<le> j" "j < int (length S)" "\<bar>j - i\<bar> \<le> w"
    by (simp_all add: set_window_indices)
  from i have i': "0 \<le> i" "i < int (length S)"
    by simp_all
  have "nat i < length S" "nat j < length S" "nat j \<noteq> nat i"
    using i' j' by simp_all
  moreover have "\<bar>int (nat j) - int (nat i)\<bar> \<le> w"
    using i' j' by simp
  moreover have "c = S ! nat i" "x = S ! nat j"
    using cx by simp_all
  ultimately show ?rhs by blast
next
  assume ?rhs
  then obtain i j where
    ij: "i < length S" "j < length S" "j \<noteq> i" "\<bar>int j - int i\<bar> \<le> w" and
    cx: "c = S ! i" "x = S ! j"
    by blast
  from ij have context_index: "int j \<in> set (window_indices (length S) w (int i))"
    by (simp add: set_window_indices)
  from ij have center_index: "int i \<in> {0 ..< int (length S)}"
    by simp
  from context_index
  have "(S ! nat (int i), S ! nat (int j)) \<in>
          (\<lambda>k. (S ! nat (int i), S ! nat k)) ` set (window_indices (length S) w (int i))"
    by (rule imageI)
  with center_index have "(S ! nat (int i), S ! nat (int j)) \<in> set (brute_force_pairs S w)"
    unfolding set_brute_force_pairs by blast
  with cx show ?lhs by simp
qed

subsection \<open>Growing the window\<close>

lemma subseq_concat_map:
  "(\<And>x. x \<in> set xs \<Longrightarrow> subseq (f x) (g x)) \<Longrightarrow> subseq (concat (map f xs)) (concat (map g xs))"
  by (induction xs) (auto intro: list_emb_append_mono)

lemma window_indices_mono:
  assumes "w1 \<le> w2"
  shows "subseq (window_indices n w1 i) (window_indices n w2 i)"
proof -
  have "[i - w1 .. i + w1] = filter (\<lambda>k. i - w1 \<le> k \<and> k < i + w1 + 1) [i - w2 .. i + w2]"
    using assms by (simp only: filter_upto_interval) simp
  then have "subseq [i - w1 .. i + w1] [i - w2 .. i + w2]"
    by (metis subseq_filter_left)
  then show ?thesis
    unfolding window_indices_def by (rule subseq_filter)
qed

lemma brute_force_pairs_mono:
  "w1 \<le> w2 \<Longrightarrow> subseq (brute_force_pairs S w1) (brute_force_pairs S w2)"
  unfolding brute_force_pairs_def by (intro subseq_concat_map subseq_map window_indices_mono)

subsection \<open>The run on a store\<close>

text \<open>
  As long as \<open>self.data\<close> is another object than \<open>text\<close>, the loops on the store
  return, change only the list behind \<open>self.data\<close>, and append to it the pairs of the
  reference enumeration.
\<close>

lemma inner_loop_store_eq:
  assumes "objs h t = map IntVal S" and "attr_data self = Some d" and "d \<noteq> t"
  shows "inner_loop_store h self t i (IntVal c) j stop =
     Inr (h\<lparr>objs := (objs h)(d := objs h d @ map pair_value (map (\<lambda>k. (c, S ! nat k))
                  (filter (\<lambda>k. k \<noteq> i \<and> 0 \<le> k \<and> k \<le> int (length S) - 1) [j .. stop - 1])))\<rparr>)"
  using assms
proof (induction h self t i "IntVal c" j stop rule: inner_loop_store.induct)
  case (1 h self t i j stop)
  have len: "length (objs h t) = length S"
    using "1.prems"(1) by simp
  have data: "get_data self = Inr d"
    using "1.prems"(2) by (simp add: get_data_def)
  show ?case
  proof (cases "j < stop")
    case False
    then show ?thesis by (simp add: inner_loop_store.simps)
  next
    case below: True
    then have unfold_range: "[j .. stop - 1] = j # [j + 1 .. stop - 1]"
      by (simp add: upto_rec1)
    show ?thesis
    proof (cases "j \<noteq> i \<and> j \<ge> 0 \<and> j < int (length (objs h t))")
      case emit: True
      with len have "nat j < length S"
        by auto
      with emit have read: "list_getitem (objs h t) j = Inr (IntVal (S ! nat j))"
        using "1.prems"(1) by (simp add: list_getitem_in_range)
      let ?h1 = "list_append h d (TupleVal (IntVal c) (IntVal (S ! nat j)))"
      have kept: "objs ?h1 t = map IntVal S"
        using "1.prems" by (simp add: list_append_def)
      have "inner_loop_store h self t i (IntVal c) j stop =
              inner_loop_store ?h1 self t i (IntVal c) (j + 1) stop"
        using below emit read data by (subst inner_loop_store.simps) simp
      also note "1.hyps"(1) [OF below emit data read kept "1.prems"(2) "1.prems"(3)]
      finally show ?thesis
        using emit len by (simp add: unfold_range list_append_def pair_value_def)
    next
      case skip: False
      have "inner_loop_store h self t i (IntVal c) j stop =
              inner_loop_store h self t i (IntVal c) (j + 1) stop"
        using below skip by (subst inner_loop_store.simps) auto
      also note "1.hyps"(2) [OF below skip "1.prems"]
      finally show ?thesis
        using skip len by (auto simp add: unfold_range)
    qed
  qed
qed


lemma outer_loop_store_eq:
  assumes "objs h t = map IntVal S" and "attr_data self = Some d" and "d \<noteq> t"
  shows "outer_loop_store h self t w idx =
     Some (Inr (h\<lparr>objs := (objs h)(d := objs h d @ map pair_value (concat (map
        (\<lambda>i. map (\<lambda>k. (S ! nat i, S ! nat k)) (window_indices (length S) w i))
        [int idx .. int (length S) - 1])))\<rparr>))"
  using assms
proof (induction "length S - idx" arbitrary: idx h)
  case 0
  then have "\<not> idx < length (objs h t)"
    by simp
  then have "outer_loop_store h self t w idx = Some (Inr h)"
    by (subst outer_loop_store.simps) simp
  moreover have "[int idx .. int (length S) - 1] = []"
    using 0 by simp
  ultimately show ?case
    by simp
next
  case (Suc n)
  then have inside: "idx < length S"
    by simp
  then have item: "objs h t ! idx = IntVal (S ! idx)"
    using Suc.prems(1) by simp
  let ?emitted = "map pair_value (map (\<lambda>k. (S ! idx, S ! nat k))
                    (window_indices (length S) w (int idx)))"
  let ?h1 = "h\<lparr>objs := (objs h)(d := objs h d @ ?emitted)\<rparr>"
  have inner: "inner_loop_store h self t (int idx) (IntVal (S ! idx)) (int idx - w) (int idx + w + 1)
                 = Inr ?h1"
    using inner_loop_store_eq [OF Suc.prems, of "int idx" "S ! idx" "int idx - w" "int idx + w + 1"]
    by (simp add: window_indices_def)
  have kept: "objs ?h1 t = map IntVal S"
    using Suc.prems by simp
  have fewer: "n = length S - Suc idx"
    using Suc.hyps(2) by simp
  have "outer_loop_store h self t w idx = outer_loop_store ?h1 self t w (Suc idx)"
    using inside Suc.prems(1) item inner by (subst outer_loop_store.simps) simp
  also note Suc.hyps(1) [OF fewer kept Suc.prems(2) Suc.prems(3)]
  finally show ?case
    using inside by (simp add: upto_rec1 [of "int idx"] add.commute)
qed

lemma SkipGramDataset_init_store_eq:
  assumes "t < next_ref h" and "objs h t = map IntVal S"
  shows "SkipGramDataset_init_store h self t w =
     Some (Inr (h\<lparr>objs := (objs h)(next_ref h := map pair_value (brute_force_pairs S w)),
                   next_ref := Suc (next_ref h)\<rparr>,
                self\<lparr>attr_window_size := Some w, attr_data := Some (next_ref h)\<rparr>))"
proof -
  let ?h1 = "h\<lparr>objs := (objs h)(next_ref h := []), next_ref := Suc (next_ref h)\<rparr>"
  let ?self2 = "self\<lparr>attr_window_size := Some w, attr_data := Some (next_ref h)\<rparr>"
  have "objs ?h1 t = map IntVal S" "attr_data ?self2 = Some (next_ref h)" "next_ref h \<noteq> t"
    using assms by simp_all
  from outer_loop_store_eq [OF this, of w 0]
  show ?thesis
    by (simp add: SkipGramDataset_init_store_def new_list_def brute_force_pairs_def)
qed


lemma SkipGramDataset_init_store_refines:
  assumes "t < next_ref h" and "objs h t = map IntVal S"
  shows "\<exists>ds h' self'. SkipGramDataset_init S w = Inr ds
           \<and> SkipGramDataset_init_store h self t w = Some (Inr (h', self'))
           \<and> attr_window_size self' = Some (window_size ds)
           \<and> attr_data self' = Some (next_ref h)
           \<and> objs h' (next_ref h) = map pair_value (data ds)"
  by (simp add: SkipGramDataset_init_store_eq [OF assms] init_eq_brute_force)

text \<open>The store-level constructor runs on a concrete store.\<close>

lemma store_run_example:
  "SkipGramDataset_init_store
     \<lparr>objs = (\<lambda>r. [])(0 := [IntVal 10, IntVal 11, IntVal 12]), next_ref = 1\<rparr>
     \<lparr>attr_window_size = None, attr_data = None\<rparr> 0 1 =
   Some (Inr (\<lparr>objs = (\<lambda>r. [])
                  (0 := [IntVal 10, IntVal 11, IntVal 12],
                   1 := [TupleVal (IntVal 10) (IntVal 11), TupleVal (IntVal 11) (IntVal 10),
                         TupleVal (IntVal 11) (IntVal 12), TupleVal (IntVal 12) (IntVal 11)]),
                next_ref = 2\<rparr>,
              \<lparr>attr_window_size = Some 1, attr_data = Some 1\<rparr>))"
  by (simp add: SkipGramDataset_init_store_def new_list_def outer_loop_store.simps
        inner_loop_store.simps list_getitem_def list_append_def get_data_def)

section \<open>The properties of the specification\<close>

subsection \<open>Agreement with the reference enumeration\<close>

text \<open>
  C1: for every sequence \<open>S\<close> of token ids and every window size \<open>w \<ge> 0\<close>, the
  constructor raises nothing and its pair list equals the reference double loop, element
  for element and in the same order.
\<close>

theorem generator_matches_brute_force:
  "0 \<le> w \<Longrightarrow>
   SkipGramDataset_init S w = Inr \<lparr>window_size = w, data = brute_force_pairs S w\<rparr>"
  by (rule init_eq_brute_force)

theorem generator_matches_brute_force_witness:
  "(0::int) \<le> 1
   \<and> brute_force_pairs [7, 8, 9] 1 = [(7, 8), (8, 7), (8, 9), (9, 8)]
   \<and> SkipGramDataset_init [7, 8, 9] 1 =
       Inr \<lparr>window_size = 1, data = [(7, 8), (8, 7), (8, 9), (9, 8)]\<rparr>"
proof -
  have reference: "brute_force_pairs [7, 8, 9] 1 = [(7, 8), (8, 7), (8, 9), (9, 8)]"
    by code_simp
  have "SkipGramDataset_init [7, 8, 9] 1 =
          Inr \<lparr>window_size = 1, data = brute_force_pairs [7, 8, 9] 1\<rparr>"
    by (rule generator_matches_brute_force) simp
  with reference show ?thesis by simp
qed

subsection \<open>Where each pair comes from\<close>

text \<open>
  C2: for every sequence \<open>S\<close> and every window size \<open>w \<ge> 0\<close>, construction succeeds
  and every emitted pair \<open>(c, x)\<close> comes from two positions \<open>i\<close> and \<open>j\<close> of the
  sequence with \<open>j \<noteq> i\<close>, \<open>0 \<le> j < len(S)\<close>, \<open>|j - i| \<le> w\<close>, \<open>c = S[i]\<close> and
  \<open>x = S[j]\<close>.
\<close>

theorem emitted_pairs_positions:
  "0 \<le> w \<Longrightarrow>
   \<exists>ds. SkipGramDataset_init S w = Inr ds \<and>
     (\<forall>(c, x) \<in> set (data ds).
        \<exists>i j. i < length S \<and> j < length S \<and> j \<noteq> i \<and> \<bar>int j - int i\<bar> \<le> w
             \<and> c = S ! i \<and> x = S ! j)"
  by (auto simp add: init_eq_brute_force in_brute_force_pairs_iff)

theorem emitted_pairs_positions_witness:
  "(0::int) \<le> 1 \<and>
   (\<exists>ds. SkipGramDataset_init [10, 11, 12] 1 = Inr ds \<and> (11, 12) \<in> set (data ds) \<and>
     (\<exists>i j. i < length [10, 11, 12 :: int] \<and> j < length [10, 11, 12 :: int] \<and> j \<noteq> i
          \<and> \<bar>int j - int i\<bar> \<le> 1 \<and> 11 = [10, 11, 12 :: int] ! i \<and> 12 = [10, 11, 12 :: int] ! j))"
proof -
  obtain ds where
    built: "SkipGramDataset_init [10, 11, 12] 1 = Inr ds" and
    pos: "\<forall>(c, x) \<in> set (data ds).
        \<exists>i j. i < length [10, 11, 12 :: int] \<and> j < length [10, 11, 12 :: int] \<and> j \<noteq> i
             \<and> \<bar>int j - int i\<bar> \<le> 1 \<and> c = [10, 11, 12 :: int] ! i \<and> x = [10, 11, 12 :: int] ! j"
    using emitted_pairs_positions [of 1 "[10, 11, 12]"] by auto
  have "SkipGramDataset_init [10, 11, 12] 1 =
          Inr \<lparr>window_size = 1, data = [(10, 11), (11, 10), (11, 12), (12, 11)]\<rparr>"
    by code_simp
  with built have mem: "(11, 12) \<in> set (data ds)"
    by auto
  with pos have "\<exists>i j. i < length [10, 11, 12 :: int] \<and> j < length [10, 11, 12 :: int] \<and> j \<noteq> i
             \<and> \<bar>int j - int i\<bar> \<le> 1 \<and> 11 = [10, 11, 12 :: int] ! i \<and> 12 = [10, 11, 12 :: int] ! j"
    by fast
  with built mem have "\<exists>ds. SkipGramDataset_init [10, 11, 12] 1 = Inr ds \<and> (11, 12) \<in> set (data ds) \<and>
     (\<exists>i j. i < length [10, 11, 12 :: int] \<and> j < length [10, 11, 12 :: int] \<and> j \<noteq> i
          \<and> \<bar>int j - int i\<bar> \<le> 1 \<and> 11 = [10, 11, 12 :: int] ! i \<and> 12 = [10, 11, 12 :: int] ! j)"
    by blast
  then show ?thesis by simp
qed

subsection \<open>Negative window sizes\<close>

text \<open>
  C3 as the specification states it: a negative window size makes the generator fail with
  an invalid-argument error. The constructor has no check of \<open>window_size\<close>; the run on
  the sequence 10, 11, 12 with window size -1 ends normally, with an empty pair list.
\<close>

theorem negative_window_no_error_counterexample:
  "SkipGramDataset_init [10, 11, 12] (- 1) = Inr \<lparr>window_size = - 1, data = []\<rparr>
   \<and> \<not> isl (SkipGramDataset_init [10, 11, 12] (- 1))"
  by code_simp

text \<open>
  C3, amended: for every sequence and every negative window size the constructor raises
  nothing and returns a dataset whose pair list is empty, since every \<open>range\<close> of the
  inner loop is empty.
\<close>

theorem negative_window_empty:
  "w < 0 \<Longrightarrow> SkipGramDataset_init S w = Inr \<lparr>window_size = w, data = []\<rparr>"
  by (simp add: init_eq_brute_force brute_force_pairs_negative)

theorem negative_window_empty_witness:
  "(- 1 :: int) < 0
   \<and> SkipGramDataset_init [10, 11, 12] (- 1) = Inr \<lparr>window_size = - 1, data = []\<rparr>"
  using negative_window_empty [of "- 1" "[10, 11, 12]"] by simp

subsection \<open>The number of pairs\<close>

text \<open>
  C4: for every sequence \<open>S\<close> and every window size \<open>w \<ge> 0\<close>, the number of pairs,
  as \<open>__len__\<close> reports it, is the sum over all indices \<open>i\<close> of
  \<open>min(i + w, len(S) - 1) - max(i - w, 0)\<close>.
\<close>

theorem pair_count:
  "0 \<le> w \<Longrightarrow>
   \<exists>ds. SkipGramDataset_init S w = Inr ds \<and>
        SkipGramDataset_len ds =
          (\<Sum>i\<leftarrow>[0 .. int (length S) - 1]. min (i + w) (int (length S) - 1) - max (i - w) 0)"
  by (simp add: init_eq_brute_force SkipGramDataset_len_def length_brute_force_pairs)

theorem pair_count_witness:
  "(0::int) \<le> 2 \<and>
   (\<exists>ds. SkipGramDataset_init [10, 11, 12, 13] 2 = Inr ds \<and> SkipGramDataset_len ds = 10)"
proof -
  have "(\<Sum>i\<leftarrow>[0 .. int (length [10, 11, 12, 13 :: int]) - 1].
           min (i + 2) (int (length [10, 11, 12, 13 :: int]) - 1) - max (i - 2) 0) = 10"
    by code_simp
  with pair_count [of 2 "[10, 11, 12, 13]"] show ?thesis by simp
qed

subsection \<open>Edge cases\<close>

text \<open>
  C5: for every window size, a sequence of length 0 gives an empty pair list, and so does
  a sequence of length 1.
\<close>

theorem short_sequence_empty:
  "SkipGramDataset_init [] w = Inr \<lparr>window_size = w, data = []\<rparr>
   \<and> SkipGramDataset_init [t] w = Inr \<lparr>window_size = w, data = []\<rparr>"
  by (simp add: init_eq_brute_force brute_force_pairs_Nil brute_force_pairs_single)

text \<open>
  C6: for every non-empty sequence, the window size 0 gives an empty pair list.
\<close>

theorem zero_window_empty:
  "S \<noteq> [] \<Longrightarrow> SkipGramDataset_init S 0 = Inr \<lparr>window_size = 0, data = []\<rparr>"
  by (simp add: init_eq_brute_force brute_force_pairs_zero)

theorem zero_window_empty_witness:
  "[10, 11, 12 :: int] \<noteq> []
   \<and> SkipGramDataset_init [10, 11, 12] 0 = Inr \<lparr>window_size = 0, data = []\<rparr>"
  using zero_window_empty [of "[10, 11, 12]"] by simp

subsection \<open>Concrete runs\<close>

text \<open>
  C7: the sequence 10, 11, 12 with window size 1 gives the four pairs (10,11), (11,10),
  (11,12), (12,11) in this order, and the sequence 10, 11, 12, 13 with window size 2
  gives the ten pairs (10,11), (10,12), (11,10), (11,12), (11,13), (12,10), (12,11),
  (12,13), (13,11), (13,12) in this order.
\<close>

theorem concrete_scenarios:
  "SkipGramDataset_init [10, 11, 12] 1 =
     Inr \<lparr>window_size = 1, data = [(10, 11), (11, 10), (11, 12), (12, 11)]\<rparr>
   \<and> SkipGramDataset_init [10, 11, 12, 13] 2 =
     Inr \<lparr>window_size = 2,
          data = [(10, 11), (10, 12), (11, 10), (11, 12), (11, 13),
                  (12, 10), (12, 11), (12, 13), (13, 11), (13, 12)]\<rparr>"
  by code_simp

subsection \<open>Reading the dataset\<close>

text \<open>
  C9: construction succeeds; \<open>__len__\<close> returns the number of pairs the loops emitted,
  and for every \<open>k\<close> with \<open>0 \<le> k < __len__()\<close> the subscript \<open>__getitem__(k)\<close>
  raises nothing and returns the \<open>k\<close>-th emitted pair.
\<close>

theorem len_and_getitem:
  "\<exists>emitted ds.
     outer_loop S w (enumerate 0 S) [] = Inr emitted
     \<and> SkipGramDataset_init S w = Inr ds
     \<and> SkipGramDataset_len ds = int (length emitted)
     \<and> (\<forall>k. 0 \<le> k \<and> k < SkipGramDataset_len ds \<longrightarrow>
            SkipGramDataset_getitem ds k = Inr (emitted ! nat k))"
  by (simp add: SkipGramDataset_init_def outer_loop_eq SkipGramDataset_len_def
        SkipGramDataset_getitem_def list_getitem_in_range)

theorem len_and_getitem_witness:
  "\<exists>ds. SkipGramDataset_init [10, 11, 12] 1 = Inr ds
        \<and> SkipGramDataset_len ds = 4
        \<and> SkipGramDataset_getitem ds 2 = Inr (11, 12)"
proof -
  obtain emitted ds where
    run: "outer_loop [10, 11, 12] 1 (enumerate 0 [10, 11, 12]) [] = Inr emitted" and
    built: "SkipGramDataset_init [10, 11, 12] 1 = Inr ds" and
    len: "SkipGramDataset_len ds = int (length emitted)" and
    sub: "\<forall>k. 0 \<le> k \<and> k < SkipGramDataset_len ds \<longrightarrow>
            SkipGramDataset_getitem ds k = Inr (emitted ! nat k)"
    using len_and_getitem [of "[10, 11, 12]" 1] by blast
  have "outer_loop [10, 11, 12] 1 (enumerate 0 [10, 11, 12]) [] =
          Inr [(10, 11), (11, 10), (11, 12), (12, 11)]"
    by code_simp
  with run have emitted: "emitted = [(10, 11), (11, 10), (11, 12), (12, 11)]"
    by simp
  have four: "SkipGramDataset_len ds = 4"
    using len by (simp add: emitted)
  have "SkipGramDataset_getitem ds 2 = Inr (emitted ! nat 2)"
    using sub four by simp
  then have "SkipGramDataset_getitem ds 2 = Inr (11, 12)"
    by (simp add: emitted numeral_2_eq_2)
  with built four show ?thesis by blast
qed

subsection \<open>Monotonicity in the window size\<close>

text \<open>
  C10: for every sequence and all window sizes \<open>0 \<le> w1 \<le> w2\<close>, the pair list built
  with \<open>w1\<close> is a subsequence of the pair list built with \<open>w2\<close>, so the number of
  pairs does not decrease when the window grows.
\<close>

theorem window_monotone:
  "0 \<le> w1 \<Longrightarrow> w1 \<le> w2 \<Longrightarrow>
   \<exists>d1 d2. SkipGramDataset_init S w1 = Inr d1 \<and> SkipGramDataset_init S w2 = Inr d2
      \<and> subseq (data d1) (data d2) \<and> SkipGramDataset_len d1 \<le> SkipGramDataset_len d2"
  using list_emb_length [OF brute_force_pairs_mono [of w1 w2 S]]
  by (simp add: init_eq_brute_force SkipGramDataset_len_def brute_force_pairs_mono)

theorem window_monotone_witness:
  "(0::int) \<le> 1 \<and> (1::int) \<le> 2 \<and>
   (\<exists>d1 d2. SkipGramDataset_init [10, 11, 12] 1 = Inr d1 \<and> SkipGramDataset_init [10, 11, 12] 2 = Inr d2
      \<and> data d1 = [(10, 11), (11, 10), (11, 12), (12, 11)]
      \<and> data d2 = [(10, 11), (10, 12), (11, 10), (11, 12), (12, 10), (12, 11)]
      \<and> subseq (data d1) (data d2) \<and> SkipGramDataset_len d1 \<le> SkipGramDataset_len d2)"
proof -
  obtain d1 d2 where
    narrow: "SkipGramDataset_init [10, 11, 12] 1 = Inr d1" and
    wide: "SkipGramDataset_init [10, 11, 12] 2 = Inr d2" and
    sub: "subseq (data d1) (data d2)" and
    le: "SkipGramDataset_len d1 \<le> SkipGramDataset_len d2"
    using window_monotone [of 1 2 "[10, 11, 12]"] by auto
  have "SkipGramDataset_init [10, 11, 12] 1 =
          Inr \<lparr>window_size = 1, data = [(10, 11), (11, 10), (11, 12), (12, 11)]\<rparr>"
    by code_simp
  with narrow have narrow_data: "data d1 = [(10, 11), (11, 10), (11, 12), (12, 11)]"
    by auto
  have "SkipGramDataset_init [10, 11, 12] 2 =
          Inr \<lparr>window_size = 2,
               data = [(10, 11), (10, 12), (11, 10), (11, 12), (12, 10), (12, 11)]\<rparr>"
    by code_simp
  with wide have wide_data: "data d2 = [(10, 11), (10, 12), (11, 10), (11, 12), (12, 10), (12, 11)]"
    by auto
  from narrow wide narrow_data wide_data sub le
  have "\<exists>d1 d2. SkipGramDataset_init [10, 11, 12] 1 = Inr d1 \<and> SkipGramDataset_init [10, 11, 12] 2 = Inr d2
      \<and> data d1 = [(10, 11), (11, 10), (11, 12), (12, 11)]
      \<and> data d2 = [(10, 11), (10, 12), (11, 10), (11, 12), (12, 10), (12, 11)]
      \<and> subseq (data d1) (data d2) \<and> SkipGramDataset_len d1 \<le> SkipGramDataset_len d2"
    by blast
  then show ?thesis by simp
qed

subsection \<open>Determinism and absence of side effects\<close>

text \<open>
  C8: pair generation is deterministic and has no side effect. Two runs of the
  constructor with the same window size, started in any two stores that hold the same
  token sequence (behind any allocated reference, and for any \<open>self\<close>), both return and
  build identical pair lists, the list that the constructor on values computes from the
  sequence and the window size alone. Each run leaves every object that existed before it
  unchanged, the input sequence among them, and allocates exactly one new object, the
  pair list.
\<close>

theorem generation_pure_and_deterministic:
  assumes "t1 < next_ref h1" and "objs h1 t1 = map IntVal S"
      and "t2 < next_ref h2" and "objs h2 t2 = map IntVal S"
  shows "\<exists>h1' self1' d1 h2' self2' d2 ds.
       SkipGramDataset_init_store h1 self1 t1 w = Some (Inr (h1', self1'))
     \<and> SkipGramDataset_init_store h2 self2 t2 w = Some (Inr (h2', self2'))
     \<and> attr_data self1' = Some d1 \<and> attr_data self2' = Some d2
     \<and> objs h1' d1 = objs h2' d2
     \<and> SkipGramDataset_init S w = Inr ds \<and> objs h1' d1 = map pair_value (data ds)
     \<and> (\<forall>r < next_ref h1. objs h1' r = objs h1 r)
     \<and> (\<forall>r < next_ref h2. objs h2' r = objs h2 r)
     \<and> next_ref h1' = Suc (next_ref h1) \<and> next_ref h2' = Suc (next_ref h2)"
  by (simp add: SkipGramDataset_init_store_eq [OF assms(1,2)]
        SkipGramDataset_init_store_eq [OF assms(3,4)] init_eq_brute_force)

theorem generation_pure_and_deterministic_witness:
  "\<exists>h1' self1' d1 h2' self2' d2.
       SkipGramDataset_init_store
         \<lparr>objs = (\<lambda>r. [])(0 := [IntVal 10, IntVal 11, IntVal 12]), next_ref = 1\<rparr>
         \<lparr>attr_window_size = None, attr_data = None\<rparr> 0 1 = Some (Inr (h1', self1'))
     \<and> SkipGramDataset_init_store
         \<lparr>objs = (\<lambda>r. [])(0 := [IntVal 99], 1 := [IntVal 10, IntVal 11, IntVal 12]), next_ref = 2\<rparr>
         \<lparr>attr_window_size = Some 4, attr_data = Some 0\<rparr> 1 1 = Some (Inr (h2', self2'))
     \<and> attr_data self1' = Some d1 \<and> attr_data self2' = Some d2
     \<and> objs h1' d1 = objs h2' d2
     \<and> objs h1' 0 = [IntVal 10, IntVal 11, IntVal 12]
     \<and> objs h2' 0 = [IntVal 99]
     \<and> objs h2' 1 = [IntVal 10, IntVal 11, IntVal 12]"
proof -
  let ?h1 = "\<lparr>objs = (\<lambda>r. [])(0 := [IntVal 10, IntVal 11, IntVal 12]), next_ref = 1\<rparr>"
  let ?h2 = "\<lparr>objs = (\<lambda>r. [])(0 := [IntVal 99], 1 := [IntVal 10, IntVal 11, IntVal 12]),
              next_ref = 2\<rparr>"
  let ?s1 = "\<lparr>attr_window_size = None, attr_data = None\<rparr>"
  let ?s2 = "\<lparr>attr_window_size = Some 4, attr_data = Some 0\<rparr>"
  have a1: "0 < next_ref ?h1" and b1: "objs ?h1 0 = map IntVal [10, 11, 12]"
    by simp_all
  have a2: "1 < next_ref ?h2" and b2: "objs ?h2 1 = map IntVal [10, 11, 12]"
    by simp_all
  obtain h1' self1' d1 h2' self2' d2 ds where
    run1: "SkipGramDataset_init_store ?h1 ?s1 0 1 = Some (Inr (h1', self1'))" and
    run2: "SkipGramDataset_init_store ?h2 ?s2 1 1 = Some (Inr (h2', self2'))" and
    refs: "attr_data self1' = Some d1" "attr_data self2' = Some d2" and
    same: "objs h1' d1 = objs h2' d2" and
    frame1: "\<forall>r < next_ref ?h1. objs h1' r = objs ?h1 r" and
    frame2: "\<forall>r < next_ref ?h2. objs h2' r = objs ?h2 r"
    using generation_pure_and_deterministic [OF a1 b1 a2 b2, of ?s1 1 ?s2] by blast
  from frame1 have "objs h1' 0 = [IntVal 10, IntVal 11, IntVal 12]"
    by simp
  moreover from frame2 have "objs h2' 0 = [IntVal 99]" "objs h2' 1 = [IntVal 10, IntVal 11, IntVal 12]"
    by simp_all
  ultimately show ?thesis
    using run1 run2 refs same by blast
qed

end
